theory Spec2Isabelle
  imports Complex_Main "HOL-Library.Word"
begin

unbundle bit_operations_syntax

section \<open>Data model of \<open>pennylane/_qubit_device.py\<close>\<close>

text \<open>
  Exceptions are values. \<open>QuantumFunctionError\<close> carries its message. \<open>ValueError\<close>,
  \<open>IndexError\<close> and \<open>TypeError\<close> are the exceptions numpy and Python raise on a bad
  shape, an index out of range and a subscript of \<open>None\<close>. \<open>NotImplementedError\<close> is what
  the abstract methods of the class raise. \<open>NonFinite\<close> is not an exception: it stands for
  a floating-point result \<open>inf\<close> or \<open>nan\<close> (a division by a zero shot count, the mean of
  an empty array), which the exact arithmetic used here for floats cannot hold.
\<close>

datatype error =
    QuantumFunctionError string
  | NotImplementedError
  | ValueError
  | IndexError
  | TypeError
  | NonFinite

text \<open>
  \<open>obs.return_type\<close> is one of the four tags imported from \<open>pennylane.operation\<close>,
  \<open>None\<close>, or some other object; a tag that is none of the four is \<open>Unrecognized\<close>, and
  \<open>None\<close> is the \<open>None\<close> of the option type.
\<close>

datatype return_type = Expectation | Variance | Sample | Probability | Unrecognized string

record observable =
  return_type :: "return_type option"
  wires :: "nat list"
  name :: string
  eigvals :: "complex list"

text \<open>
  A two-dimensional integer array, as \<open>self._samples\<close> is: its number of columns and its
  rows. The number of columns is kept apart because an array with no rows still has a
  shape \<open>(0, n)\<close>, and a column index is checked against \<open>n\<close>.
\<close>

record int_array2 =
  ncols :: nat
  rows :: "int list list"

text \<open>
  The fields of a \<open>QubitDevice\<close>. \<open>num_wires\<close> and \<open>shots\<close> are set by the base class
  \<open>Device\<close>; \<open>samples\<close> and \<open>circuit_hash\<close> are \<open>self._samples\<close> and
  \<open>self._circuit_hash\<close>, \<open>None\<close> after \<open>__init__\<close> and \<open>reset\<close>.
\<close>

record device =
  num_wires :: nat
  shots :: nat
  analytic :: bool
  samples :: "int_array2 option"
  circuit_hash :: "nat option"

definition reset :: "device \<Rightarrow> device" where
  "reset dev = dev\<lparr>samples := None, circuit_hash := None\<rparr>"

section \<open>The numpy operations the class uses\<close>

text \<open>
  An n-dimensional array: its shape and its entries in row-major (C) order, which is the
  order \<open>reshape\<close> and \<open>flatten\<close> use.
\<close>

record 'a ndarray =
  shape :: "nat list"
  data :: "'a list"

text \<open>\<open>np.hstack\<close> of a sequence of scalars: the one-dimensional array of them; it raises
  \<open>ValueError\<close> on an empty sequence.\<close>

definition hstack :: "nat list \<Rightarrow> error + nat list" where
  "hstack ws = (if ws = [] then Inl ValueError else Inr ws)"

text \<open>\<open>a.reshape(shp)\<close>: \<open>ValueError\<close> unless the sizes agree.\<close>

definition reshape :: "'a list \<Rightarrow> nat list \<Rightarrow> error + 'a ndarray" where
  "reshape xs shp =
     (if length xs = prod_list shp then Inr \<lparr>shape = shp, data = xs\<rparr> else Inl ValueError)"

text \<open>
  \<open>np.sum(a, axis)\<close> followed by the \<open>expand_dims\<close> that \<open>np.apply_over_axes\<close> applies
  when the sum has lost the axis: the axis is kept with extent 1. In row-major order the
  entry at position \<open>(b, j, i)\<close> (before the axis, on it, after it) is at offset
  \<open>(b * n + j) * inner + i\<close>. The axis is below the number of dimensions wherever the
  class calls it.
\<close>

definition sum_axis :: "real ndarray \<Rightarrow> nat \<Rightarrow> real ndarray" where
  "sum_axis a ax =
     (let outer = prod_list (take ax (shape a));
          n = shape a ! ax;
          inner = prod_list (drop (Suc ax) (shape a))
      in \<lparr>shape = (shape a)[ax := 1],
          data = concat (map (\<lambda>b. map (\<lambda>i.
                    sum_list (map (\<lambda>j. data a ! ((b * n + j) * inner + i)) [0..<n]))
                    [0..<inner]) [0..<outer])\<rparr>)"

text \<open>\<open>np.apply_over_axes(np.sum, a, axes)\<close>: one axis after the other.\<close>

fun apply_over_axes :: "real ndarray \<Rightarrow> nat list \<Rightarrow> real ndarray" where
  "apply_over_axes a [] = a"
| "apply_over_axes a (ax # axes) = apply_over_axes (sum_axis a ax) axes"

text \<open>
  \<open>np.argsort\<close>: the indices that sort the array. numpy's default sort is not stable;
  on distinct entries every sort gives the same indices as the stable one used here.
\<close>

definition argsort :: "nat list \<Rightarrow> nat list" where
  "argsort xs = sort_key (\<lambda>i. xs ! i) [0..<length xs]"

text \<open>
  \<open>np.ravel_multi_index\<close> for one multi-index: the position in row-major order of the
  entry with these coordinates in an array of shape \<open>dims\<close>; \<open>ValueError\<close> when a
  coordinate is outside its dimension or the lengths differ.
\<close>

fun ravel_one :: "nat \<Rightarrow> int list \<Rightarrow> nat list \<Rightarrow> error + nat" where
  "ravel_one acc [] [] = Inr acc"
| "ravel_one acc (i # idx) (d # ds) =
     (if 0 \<le> i \<and> i < int d then ravel_one (acc * d + nat i) idx ds else Inl ValueError)"
| "ravel_one acc _ _ = Inl ValueError"

text \<open>A list of results is a result: the first error, or all the values.\<close>

fun sequence :: "(error + 'a) list \<Rightarrow> error + 'a list" where
  "sequence [] = Inr []"
| "sequence (x # xs) =
     (case x of Inl e \<Rightarrow> Inl e
      | Inr v \<Rightarrow> (case sequence xs of Inl e \<Rightarrow> Inl e | Inr vs \<Rightarrow> Inr (v # vs)))"

text \<open>
  \<open>np.ravel_multi_index(m.T, dims)\<close> for a two-dimensional \<open>m\<close>: the transposition makes
  each row of \<open>m\<close> one multi-index, so the argument here is the list of rows of \<open>m\<close>.
\<close>

definition ravel_multi_index :: "int list list \<Rightarrow> nat list \<Rightarrow> error + nat list" where
  "ravel_multi_index ms dims = sequence (map (\<lambda>m. ravel_one 0 m dims) ms)"

text \<open>\<open>a[idx]\<close> with an integer array \<open>idx\<close>: \<open>IndexError\<close> when an index is out of range.\<close>

definition take_indices :: "'a list \<Rightarrow> nat list \<Rightarrow> error + 'a list" where
  "take_indices xs idx =
     (if list_all (\<lambda>i. i < length xs) idx then Inr (map (\<lambda>i. xs ! i) idx) else Inl IndexError)"

text \<open>\<open>m[:, idx]\<close>: the columns \<open>idx\<close> of a two-dimensional array, in that order.\<close>

definition select_columns :: "int_array2 \<Rightarrow> nat list \<Rightarrow> error + int_array2" where
  "select_columns m idx =
     (if list_all (\<lambda>c. c < ncols m) idx
      then Inr \<lparr>ncols = length idx, rows = map (\<lambda>r. map (\<lambda>c. r ! c) idx) (rows m)\<rparr>
      else Inl IndexError)"

text \<open>\<open>itertools.product([0, 1], repeat=k)\<close>: all bit tuples of length \<open>k\<close>, the first
  component varying slowest.\<close>

definition product_bits :: "nat \<Rightarrow> int list list" where
  "product_bits k = product_lists (replicate k [0, 1])"

section \<open>\<open>marginal_prob\<close>\<close>

text \<open>
  \<open>list(set(range(num_wires)) - set(wires))\<close> is taken in increasing order; the order
  of the axes does not change a sum in exact arithmetic.
\<close>

definition marginal_prob :: "device \<Rightarrow> real list \<Rightarrow> nat list option \<Rightarrow> error + real list" where
  "marginal_prob dev prob ws_opt =
     (case ws_opt of
        None \<Rightarrow> Inr prob
      | Some ws0 \<Rightarrow>
          (case hstack ws0 of
             Inl e \<Rightarrow> Inl e
           | Inr ws \<Rightarrow>
               (let inactive_wires = filter (\<lambda>w. w \<notin> set ws) [0..<num_wires dev]
                in case reshape prob (replicate (num_wires dev) 2) of
                     Inl e \<Rightarrow> Inl e
                   | Inr t \<Rightarrow>
                       (let prob' = data (apply_over_axes t inactive_wires);
                            basis_states = product_bits (length ws);
                            permuted = map (\<lambda>r. map (\<lambda>c. r ! c) (argsort (argsort ws)))
                                           basis_states
                        in case ravel_multi_index permuted (replicate (length ws) 2) of
                             Inl e \<Rightarrow> Inl e
                           | Inr perm \<Rightarrow> take_indices prob' perm))))"

section \<open>\<open>states_to_binary\<close>\<close>

text \<open>
  numpy's default integer is the 64-bit signed \<open>int64\<close>: \<open>np.arange\<close> makes such an
  array, \<open>1 << np.arange(num_wires)\<close> shifts within 64 bits (numpy gives 0 for a shift
  by 64 or more, as \<open>push_bit\<close> does), and \<open>> 0\<close> compares the signed value.
  \<open>[:, ::-1]\<close> reverses each row.
\<close>

type_synonym int64 = "64 word"

definition states_to_binary :: "int64 list \<Rightarrow> nat \<Rightarrow> int_array2" where
  "states_to_binary smp n =
     (let powers_of_two = map (\<lambda>j. push_bit j (1 :: int64)) [0..<n];
          states_sampled_base_ten = map (\<lambda>s. map (\<lambda>p. s AND p) powers_of_two) smp
      in \<lparr>ncols = n,
          rows = map (\<lambda>r. rev (map (\<lambda>x. if 0 <s x then 1 else 0) r))
                     states_sampled_base_ten\<rparr>)"

section \<open>\<open>estimate_probability\<close>\<close>

text \<open>\<open>np.unique(a, return_counts=True)\<close>: the distinct entries in increasing order, and
  how often each occurs.\<close>

definition unique_counts :: "nat list \<Rightarrow> nat list \<times> nat list" where
  "unique_counts xs =
     (let us = sort (remdups xs) in (us, map (\<lambda>u. count_list xs u) us))"

text \<open>\<open>a[idx] = vals\<close> for an index array and an array of values of the same length.\<close>

fun assign :: "'a list \<Rightarrow> nat list \<Rightarrow> 'a list \<Rightarrow> 'a list" where
  "assign a (i # idx) (v # vals) = assign (a[i := v]) idx vals"
| "assign a _ _ = a"

text \<open>
  \<open>wires=None\<close> makes \<open>np.hstack\<close> raise a \<open>TypeError\<close>, and so does the subscript of
  \<open>self._samples\<close> while it is \<open>None\<close>. The entries of \<open>indices\<close> are below
  \<open>2 ** len(wires)\<close>, so the assignment is in range. \<open>counts / self.shots\<close> is a true
  division: with a zero shot count and at least one sample it gives \<open>inf\<close>.
\<close>

definition estimate_probability :: "device \<Rightarrow> nat list option \<Rightarrow> error + real list" where
  "estimate_probability dev ws_opt =
     (case ws_opt of
        None \<Rightarrow> Inl TypeError
      | Some ws0 \<Rightarrow>
          (case hstack ws0 of
             Inl e \<Rightarrow> Inl e
           | Inr ws \<Rightarrow>
               (case samples dev of
                  None \<Rightarrow> Inl TypeError
                | Some smp \<Rightarrow>
                    (case select_columns smp ws of
                       Inl e \<Rightarrow> Inl e
                     | Inr sel \<Rightarrow>
                         (let unraveled_indices = replicate (length ws) 2
                          in case ravel_multi_index (rows sel) unraveled_indices of
                               Inl e \<Rightarrow> Inl e
                             | Inr indices \<Rightarrow>
                                 (let (basis_states, counts) = unique_counts indices;
                                      prob = replicate (2 ^ length ws) (0 :: real)
                                  in if counts \<noteq> [] \<and> shots dev = 0 then Inl NonFinite
                                     else Inr (assign prob basis_states
                                            (map (\<lambda>c. real c / real (shots dev)) counts))))))))"

section \<open>What the class takes from outside\<close>

text \<open>
  \<open>translate\<close> and \<open>check_validity\<close> are methods of the base class \<open>Device\<close>;
  \<open>apply\<close> is abstract; \<open>analytic_probability\<close> raises \<open>NotImplementedError\<close> in this
  class and is overridden by simulators; \<open>np.random.choice\<close> draws the samples. They are
  the fields of a \<open>backend\<close>: \<open>analytic_probability\<close> stands for the overridden method
  after \<open>apply\<close> has run, and \<open>random_choice\<close> for one run of the random generator, given
  the population, the number of draws and the weights. \<open>ragged_raises\<close> is the numpy at
  hand: given entries of different shapes and no type, \<open>np.asarray\<close> raises \<open>ValueError\<close>
  from numpy 1.24 on, and builds an object array before.
\<close>

type_synonym operation = string

record backend =
  translate :: "nat list \<Rightarrow> nat list"
  check_validity :: "operation list \<Rightarrow> observable list \<Rightarrow> error option"
  apply_operations :: "operation list \<Rightarrow> operation list \<Rightarrow> error option"
  analytic_probability :: "nat list option \<Rightarrow> error + real list"
  random_choice :: "int64 list \<Rightarrow> nat \<Rightarrow> real list \<Rightarrow> error + int64 list"
  ragged_raises :: bool

section \<open>\<open>probability\<close>\<close>

text \<open>\<open>wires or range(self.num_wires)\<close>: \<open>None\<close> and the empty sequence are both falsy.
  The attribute \<open>analytic\<close> is set by \<open>__init__\<close>, so \<open>hasattr\<close> holds.\<close>

definition probability :: "backend \<Rightarrow> device \<Rightarrow> nat list option \<Rightarrow> error + real list" where
  "probability be dev ws_opt =
     (let ws = (case ws_opt of
                  None \<Rightarrow> [0..<num_wires dev]
                | Some w \<Rightarrow> if w = [] then [0..<num_wires dev] else w)
      in if analytic dev then analytic_probability be (Some ws)
         else estimate_probability dev (Some ws))"

section \<open>\<open>sample\<close>, \<open>expval\<close>, \<open>var\<close>\<close>

text \<open>
  \<open>1 - 2 * self._samples[:, wires[0]]\<close>: \<open>wires[0]\<close> is evaluated before the
  subscript of \<open>self._samples\<close>. \<open>observable.eigvals[indices]\<close> raises \<open>IndexError\<close> when the
  table is too short.
\<close>

definition sample :: "backend \<Rightarrow> device \<Rightarrow> observable \<Rightarrow> error + complex list" where
  "sample be dev obs =
     (let ws0 = translate be (wires obs)
      in if name obs \<in> {''PauliX'', ''PauliY'', ''PauliZ'', ''Hadamard''}
         then (case ws0 of
                 [] \<Rightarrow> Inl IndexError
               | w # _ \<Rightarrow>
                   (case samples dev of
                      None \<Rightarrow> Inl TypeError
                    | Some smp \<Rightarrow>
                        if w < ncols smp
                        then Inr (map (\<lambda>r. of_int (1 - 2 * (r ! w))) (rows smp))
                        else Inl IndexError))
         else (case hstack ws0 of
                 Inl e \<Rightarrow> Inl e
               | Inr ws \<Rightarrow>
                   (case samples dev of
                      None \<Rightarrow> Inl TypeError
                    | Some smp \<Rightarrow>
                        (case select_columns smp ws of
                           Inl e \<Rightarrow> Inl e
                         | Inr sel \<Rightarrow>
                             (let unraveled_indices = replicate (length ws) 2
                              in case ravel_multi_index (rows sel) unraveled_indices of
                                   Inl e \<Rightarrow> Inl e
                                 | Inr indices \<Rightarrow> take_indices (eigvals obs) indices)))))"

text \<open>\<open>a @ b\<close> for two one-dimensional arrays: \<open>ValueError\<close> unless the lengths agree.\<close>

definition matmul :: "complex list \<Rightarrow> complex list \<Rightarrow> error + complex" where
  "matmul xs ys =
     (if length xs = length ys then Inr (sum_list (map2 (*) xs ys)) else Inl ValueError)"

text \<open>\<open>np.mean\<close> and \<open>np.var\<close> of a one-dimensional array; \<open>nan\<close> on an empty one.
  \<open>np.var\<close> is the mean of \<open>abs(x - x.mean()) ** 2\<close>, the squared modulus written
  with the real and the imaginary part.\<close>

definition mean :: "complex list \<Rightarrow> error + complex" where
  "mean xs = (if xs = [] then Inl NonFinite else Inr (sum_list xs / of_nat (length xs)))"

definition variance :: "complex list \<Rightarrow> error + complex" where
  "variance xs =
     (case mean xs of
        Inl e \<Rightarrow> Inl e
      | Inr m \<Rightarrow> mean (map (\<lambda>x. of_real ((Re (x - m))\<^sup>2 + (Im (x - m))\<^sup>2)) xs))"

definition expval :: "backend \<Rightarrow> device \<Rightarrow> observable \<Rightarrow> error + complex" where
  "expval be dev obs =
     (let ws = translate be (wires obs)
      in if analytic dev
         then (case probability be dev (Some ws) of
                 Inl e \<Rightarrow> Inl e
               | Inr prob \<Rightarrow>
                   (case matmul (eigvals obs) (map of_real prob) of
                      Inl e \<Rightarrow> Inl e
                    | Inr v \<Rightarrow> Inr (of_real (Re v))))
         else (case sample be dev obs of Inl e \<Rightarrow> Inl e | Inr s \<Rightarrow> mean s))"

definition var :: "backend \<Rightarrow> device \<Rightarrow> observable \<Rightarrow> error + complex" where
  "var be dev obs =
     (let ws = translate be (wires obs)
      in if analytic dev
         then (case probability be dev (Some ws) of
                 Inl e \<Rightarrow> Inl e
               | Inr prob \<Rightarrow>
                   (case matmul (map (\<lambda>x. x\<^sup>2) (eigvals obs)) (map of_real prob) of
                      Inl e \<Rightarrow> Inl e
                    | Inr v2 \<Rightarrow>
                        (case matmul (eigvals obs) (map of_real prob) of
                           Inl e \<Rightarrow> Inl e
                         | Inr v \<Rightarrow> Inr (v2 - of_real ((Re v)\<^sup>2)))))
         else (case sample be dev obs of Inl e \<Rightarrow> Inl e | Inr s \<Rightarrow> variance s))"

section \<open>\<open>statistics\<close>\<close>

text \<open>One entry of \<open>results\<close>: a scalar (an expectation value or a variance) or a
  one-dimensional array (samples or probabilities).\<close>

datatype stat = Scalar complex | Array "complex list"

text \<open>
  The body of the loop for one observable: the \<open>if\<close>/\<open>elif\<close> chain in its order. The
  value is an error, \<open>Some\<close> entry to append, or \<open>None\<close> when no branch is taken, which
  happens for the tag \<open>None\<close> only.
\<close>

definition statistics_step :: "backend \<Rightarrow> device \<Rightarrow> observable \<Rightarrow> error + stat option" where
  "statistics_step be dev obs =
     (if return_type obs = Some Expectation
      then (case expval be dev obs of Inl e \<Rightarrow> Inl e | Inr v \<Rightarrow> Inr (Some (Scalar v)))
      else if return_type obs = Some Variance
      then (case var be dev obs of Inl e \<Rightarrow> Inl e | Inr v \<Rightarrow> Inr (Some (Scalar v)))
      else if return_type obs = Some Sample
      then (case sample be dev obs of Inl e \<Rightarrow> Inl e | Inr s \<Rightarrow> Inr (Some (Array s)))
      else if return_type obs = Some Probability
      then (case probability be dev (Some (translate be (wires obs))) of
              Inl e \<Rightarrow> Inl e
            | Inr p \<Rightarrow> Inr (Some (Array (map of_real p))))
      else if return_type obs \<noteq> None
      then Inl (QuantumFunctionError
                  (''Unsupported return type specified for observable '' @ name obs))
      else Inr None)"

fun statistics_loop ::
  "backend \<Rightarrow> device \<Rightarrow> stat list \<Rightarrow> observable list \<Rightarrow> error + stat list" where
  "statistics_loop be dev results [] = Inr results"
| "statistics_loop be dev results (obs # rest) =
     (case statistics_step be dev obs of
        Inl e \<Rightarrow> Inl e
      | Inr None \<Rightarrow> statistics_loop be dev results rest
      | Inr (Some r) \<Rightarrow> statistics_loop be dev (results @ [r]) rest)"

definition statistics :: "backend \<Rightarrow> device \<Rightarrow> observable list \<Rightarrow> error + stat list" where
  "statistics be dev obs_list = statistics_loop be dev [] obs_list"

section \<open>\<open>generate_samples\<close>\<close>

text \<open>\<open>np.arange(n)\<close>, an \<open>int64\<close> array.\<close>

definition arange :: "nat \<Rightarrow> int64 list" where
  "arange n = map word_of_nat [0..<n]"

definition sample_basis_states ::
  "backend \<Rightarrow> device \<Rightarrow> nat \<Rightarrow> real list \<Rightarrow> error + int64 list" where
  "sample_basis_states be dev number_of_states state_probability =
     (let basis_states = arange number_of_states
      in random_choice be basis_states (shots dev) state_probability)"

definition generate_samples :: "backend \<Rightarrow> device \<Rightarrow> error + int_array2" where
  "generate_samples be dev =
     (let number_of_states = 2 ^ num_wires dev
      in case analytic_probability be None of
           Inl e \<Rightarrow> Inl e
         | Inr rotated_prob \<Rightarrow>
             (case sample_basis_states be dev number_of_states rotated_prob of
                Inl e \<Rightarrow> Inl e
              | Inr smp \<Rightarrow> Inr (states_to_binary smp (num_wires dev))))"

section \<open>\<open>execute\<close>\<close>

text \<open>What \<open>execute\<close> reads of a \<open>CircuitGraph\<close>.\<close>

record circuit =
  operations :: "operation list"
  observables :: "observable list"
  diagonalizing_gates :: "operation list"
  hash :: nat
  is_sampled :: bool

text \<open>The shape of an entry of \<open>results\<close>: \<open>()\<close> for a scalar, \<open>(n,)\<close> for an array.\<close>

definition stat_shape :: "stat \<Rightarrow> nat list" where
  "stat_shape s = (case s of Scalar _ \<Rightarrow> [] | Array xs \<Rightarrow> [length xs])"

text \<open>The entries of \<open>results\<close> all have the same shape.\<close>

definition homogeneous :: "stat list \<Rightarrow> bool" where
  "homogeneous rs =
     (case rs of [] \<Rightarrow> True | r # rest \<Rightarrow> list_all (\<lambda>s. stat_shape s = stat_shape r) rest)"

text \<open>
  What \<open>execute\<close> returns: an array of numbers (of one more dimension than the entries),
  or an array of type \<open>object\<close> that holds the entries as they are.
\<close>

datatype result = ObjectArray "stat list" | NumericArray "stat list"

text \<open>
  \<open>self._asarray\<close> is \<open>np.asarray\<close>. With \<open>dtype="object"\<close> the array is an object array.
  With no type, numpy takes the type from the entries: numbers when they all have the same
  shape; when they do not, an object array or a \<open>ValueError\<close>, as the numpy at hand has
  it.
\<close>

definition asarray_object :: "stat list \<Rightarrow> error + result" where
  "asarray_object rs = Inr (ObjectArray rs)"

definition asarray :: "backend \<Rightarrow> stat list \<Rightarrow> error + result" where
  "asarray be rs =
     (if homogeneous rs then Inr (NumericArray rs)
      else if ragged_raises be then Inl ValueError
      else Inr (ObjectArray rs))"

text \<open>
  The device is mutated as the method runs, and an exception leaves the fields as they
  are at that point: the value is the outcome together with the device afterwards.
\<close>

definition execute :: "backend \<Rightarrow> device \<Rightarrow> circuit \<Rightarrow> (error + result) \<times> device" where
  "execute be dev c =
     (case check_validity be (operations c) (observables c) of
        Some e \<Rightarrow> (Inl e, dev)
      | None \<Rightarrow>
          (let dev1 = dev\<lparr>circuit_hash := Some (hash c)\<rparr>
           in case apply_operations be (operations c) (diagonalizing_gates c) of
                Some e \<Rightarrow> (Inl e, dev1)
              | None \<Rightarrow>
                  (case (if \<not> analytic dev1 \<or> is_sampled c
                         then (case generate_samples be dev1 of
                                 Inl e \<Rightarrow> Inl e
                               | Inr smp \<Rightarrow> Inr (dev1\<lparr>samples := Some smp\<rparr>))
                         else Inr dev1) of
                     Inl e \<Rightarrow> (Inl e, dev1)
                   | Inr dev2 \<Rightarrow>
                       (case statistics be dev2 (observables c) of
                          Inl e \<Rightarrow> (Inl e, dev2)
                        | Inr results \<Rightarrow>
                            (let all_sampled =
                                   list_all (\<lambda>obs. return_type obs = Some Sample)
                                            (observables c)
                             in if is_sampled c \<and> \<not> all_sampled
                                then (asarray_object results, dev2)
                                else (asarray be results, dev2))))))"

section \<open>Notions of the specification\<close>

text \<open>The inner product \<open>e \<cdot> p\<close> of an eigenvalue vector and a probability vector.\<close>

definition dot :: "complex list \<Rightarrow> real list \<Rightarrow> complex" where
  "dot e p = (\<Sum>i<length p. e ! i * of_real (p ! i))"

text \<open>The big-endian \<open>n\<close>-bit binary expansion of \<open>k\<close>: the first entry, for the first
  wire, is the most significant bit.\<close>

definition binary_expansion :: "nat \<Rightarrow> nat \<Rightarrow> int list" where
  "binary_expansion n k = map (\<lambda>w. int ((k div 2 ^ (n - 1 - w)) mod 2)) [0..<n]"

text \<open>The columns \<open>ws\<close> of a sample row, read as a big-endian base-2 number.\<close>

definition column_index :: "nat list \<Rightarrow> int list \<Rightarrow> nat" where
  "column_index ws r = foldl (\<lambda>acc w. 2 * acc + nat (r ! w)) 0 ws"

text \<open>The bit of wire \<open>w\<close> in the basis state \<open>s\<close> of \<open>n\<close> wires.\<close>

definition wire_bit :: "nat \<Rightarrow> nat \<Rightarrow> nat \<Rightarrow> nat" where
  "wire_bit n s w = (s div 2 ^ (n - 1 - w)) mod 2"

text \<open>
  The marginal distribution over the wires \<open>ws\<close> in the caller's order: the entry at
  index \<open>j\<close> is the sum of \<open>p\<close> over the basis states of all \<open>n\<close> wires in which wire
  \<open>ws ! t\<close> carries bit \<open>t\<close> of \<open>j\<close>, for every position \<open>t\<close>.
\<close>

definition marginal_over :: "nat \<Rightarrow> real list \<Rightarrow> nat list \<Rightarrow> real list" where
  "marginal_over n p ws =
     map (\<lambda>j. sum_list (map (\<lambda>s. p ! s)
                (filter (\<lambda>s. list_all (\<lambda>t. wire_bit n s (ws ! t) = wire_bit (length ws) j t)
                                      [0..<length ws])
                        [0..<2 ^ n])))
         [0..<2 ^ length ws]"


section \<open>A small simulator, for concrete runs\<close>

text \<open>
  A two-wire analytic device in the state with probabilities \<open>[0.5, 0, 0.5, 0]\<close>; its
  \<open>analytic_probability\<close> is \<open>marginal_prob\<close> of that vector, as the class's docstring
  suggests, its random generator draws the basis states 2 and 0, and its numpy builds an
  object array from entries of different shapes. \<open>ex_backend_1_24\<close> is the same with a
  numpy that raises there.
\<close>

definition ex_device :: device where
  "ex_device =
     \<lparr>num_wires = 2, shots = 2, analytic = True, samples = None, circuit_hash = None\<rparr>"

definition ex_backend :: backend where
  "ex_backend =
     \<lparr>translate = (\<lambda>ws. ws),
      check_validity = (\<lambda>ops obs. None),
      apply_operations = (\<lambda>ops rotations. None),
      analytic_probability = (\<lambda>ws. marginal_prob ex_device [1 / 2, 0, 1 / 2, 0] ws),
      random_choice = (\<lambda>population n p. Inr [2, 0]),
      ragged_raises = False\<rparr>"

definition ex_backend_1_24 :: backend where
  "ex_backend_1_24 = ex_backend\<lparr>ragged_raises := True\<rparr>"

text \<open>The same device in sampling mode, holding four samples.\<close>

definition ex_sampled_device :: device where
  "ex_sampled_device =
     \<lparr>num_wires = 2, shots = 4, analytic = False,
      samples = Some \<lparr>ncols = 2, rows = [[0, 1], [1, 1], [0, 1], [0, 0]]\<rparr>,
      circuit_hash = None\<rparr>"

text \<open>Pauli-Z on wire 0 with a given return type, and the probabilities of given wires
  (an identity observable with the return type \<open>Probability\<close>).\<close>

definition pauli_z :: "return_type option \<Rightarrow> observable" where
  "pauli_z t = \<lparr>return_type = t, wires = [0], name = ''PauliZ'', eigvals = [1, - 1]\<rparr>"

definition probs :: "nat list \<Rightarrow> observable" where
  "probs ws =
     \<lparr>return_type = Some Probability, wires = ws, name = ''Identity'', eigvals = []\<rparr>"

text \<open>A three-wire device, and a circuit with no operations, given observables and a given
  \<open>is_sampled\<close> flag.\<close>

definition ex_device3 :: device where
  "ex_device3 =
     \<lparr>num_wires = 3, shots = 2, analytic = True, samples = None, circuit_hash = None\<rparr>"

definition ex_circuit :: "observable list \<Rightarrow> bool \<Rightarrow> circuit" where
  "ex_circuit obs flag =
     \<lparr>operations = [], observables = obs, diagonalizing_gates = [], hash = 7,
      is_sampled = flag\<rparr>"

section \<open>Theorems\<close>

text \<open>
  C2. For every probability vector \<open>prob\<close>, \<open>marginal_prob(prob, wires=None)\<close> returns
  \<open>prob\<close> unchanged: nothing is marginalised, whatever the device and the length of the
  vector.
\<close>

theorem marginal_prob_None: "marginal_prob dev prob None = Inr prob"
  by (simp add: marginal_prob_def)

subsection \<open>\<open>states_to_binary\<close>\<close>

lemma and_single_bit:
  "(i :: int64) AND 2 ^ j = (if bit i j then 2 ^ j else 0)"
  by (rule bit_eqI) (auto simp: bit_simps)

lemma bit_below_msb: "bit (w :: int64) n \<Longrightarrow> \<not> bit w 63 \<Longrightarrow> n < 63"
  using bit_imp_le_length [of w n] by (cases "n = 63") auto

lemma sint_eq_uint_int64: "\<not> bit (w :: int64) 63 \<Longrightarrow> sint w = uint w"
  by (rule bit_eqI) (auto simp: bit_simps min_def dest: bit_below_msb split: if_splits)

lemma nonneg_msb: "0 \<le> sint (i :: int64) \<Longrightarrow> \<not> bit i 63"
  using bit_last_iff [of i] by simp

text \<open>On a non-negative \<open>int64\<close> the test \<open>(s & (1 << j)) > 0\<close> reads bit \<open>j\<close>, for every
  \<open>j\<close>: the sign bit is clear, and a shift by 64 or more gives 0.\<close>

lemma positive_and_single_bit:
  assumes "0 \<le> sint (i :: int64)"
  shows "0 <s (i AND 2 ^ j) \<longleftrightarrow> bit i j"
proof -
  let ?x = "i AND 2 ^ j"
  have "\<not> bit ?x 63"
    using nonneg_msb [OF assms] by (simp add: bit_simps)
  then have "sint ?x = uint ?x"
    by (rule sint_eq_uint_int64)
  then have "0 <s ?x \<longleftrightarrow> ?x \<noteq> 0"
    by (simp add: word_sless_alt) (metis uint_0_iff uint_lt_0 linorder_neqE_linordered_idom)
  also have "\<dots> \<longleftrightarrow> bit i j"
    by (auto simp: and_single_bit dest: bit_imp_le_length)
  finally show ?thesis .
qed

lemma ravel_one_bits:
  "ravel_one acc (rev (map (\<lambda>j. if f j then 1 else 0) [0..<n])) (replicate n 2) =
     Inr (acc * 2 ^ n + (\<Sum>j<n. of_bool (f j) * 2 ^ j))"
  by (induction n arbitrary: acc) (simp_all add: algebra_simps)

lemma sum_bits_take_bit:
  "(\<Sum>j<n. of_bool (bit (i :: int64) j) * 2 ^ j) = take_bit n (unat i)"
  by (simp add: take_bit_sum [of n "unat i"] push_bit_eq_mult bit_unsigned_iff
      atLeast0LessThan mult.commute)

lemma states_to_binary_rows:
  assumes "\<forall>i\<in>set smp. 0 \<le> sint i"
  shows "rows (states_to_binary smp n) =
           map (\<lambda>i. rev (map (\<lambda>j. if bit i j then 1 else 0) [0..<n])) smp"
  using assms by (simp add: states_to_binary_def positive_and_single_bit comp_def)

text \<open>
  C3. Round trip: for every basis-state index \<open>i\<close> (an \<open>int64\<close>, as the entries of the
  sample array are) with \<open>0 \<le> i < 2 ^ n\<close>, the row \<open>states_to_binary([i], n)\<close> read as a
  big-endian base-2 number, which is \<open>ravel_multi_index\<close> with dimensions \<open>[2] * n\<close>, is
  \<open>i\<close> again.
\<close>

theorem states_to_binary_round_trip:
  assumes "0 \<le> sint (i :: int64)" and "sint i < 2 ^ n"
  shows "ravel_multi_index (rows (states_to_binary [i] n)) (replicate n 2) = Inr [nat (sint i)]"
proof -
  have u: "sint i = uint i"
    using assms(1) by (simp add: nonneg_msb sint_eq_uint_int64)
  then have "uint i < 2 ^ n"
    using assms(2) by simp
  moreover have "int (unat i) = uint i"
    by simp
  ultimately have "int (unat i) < 2 ^ n"
    by (simp only:)
  then have "unat i < 2 ^ n"
    by (rule of_nat_less_numeral_power_cancel_iff [THEN iffD1])
  then have "take_bit n (unat i) = unat i"
    by (simp add: take_bit_nat_eq_self)
  then show ?thesis
    using u assms(1)
    by (simp add: states_to_binary_rows ravel_multi_index_def ravel_one_bits sum_bits_take_bit)
qed

theorem states_to_binary_round_trip_witness:
  "rows (states_to_binary [5] 3) = [[1, 0, 1]] \<and>
   ravel_multi_index (rows (states_to_binary [5] 3)) (replicate 3 2) = Inr [5]"
proof -
  have a: "0 \<le> sint (5 :: int64)" by simp
  have b: "sint (5 :: int64) < 2 ^ 3" by simp
  have r: "rows (states_to_binary [5] 3) = [[1, 0, 1]]" by code_simp
  show ?thesis
    using states_to_binary_round_trip [OF a b] r by simp
qed

subsection \<open>\<open>probability\<close>\<close>

text \<open>
  C9. \<open>probability\<close> called with an empty wire sequence does what it does with
  \<open>wires=None\<close>: the empty sequence is falsy and is replaced by \<open>range(num_wires)\<close>, so
  the distribution over all wires of the device is asked for, analytic or estimated.
\<close>

theorem probability_empty_wires:
  "probability be dev (Some []) = probability be dev None \<and>
   probability be dev (Some []) =
     (if analytic dev then analytic_probability be (Some [0..<num_wires dev])
      else estimate_probability dev (Some [0..<num_wires dev]))"
  by (simp add: probability_def)

subsection \<open>\<open>expval\<close> and \<open>var\<close>\<close>

lemma sum_list_map2_nth:
  "length xs = length ys \<Longrightarrow>
   sum_list (map2 (*) xs ys) = (\<Sum>i<length xs. xs ! i * (ys ! i :: complex))"
  by (simp add: sum_list_sum_nth atLeast0LessThan)

lemma matmul_dot:
  "length e = length p \<Longrightarrow> matmul e (map of_real p) = Inr (dot e p)"
  by (simp add: matmul_def dot_def sum_list_map2_nth)

lemma dot_real:
  assumes "\<forall>x\<in>set e. Im x = 0" and "length e = length p"
  shows "of_real (Re (dot e p)) = dot e p"
proof -
  have "Im (dot e p) = 0"
    using assms by (simp add: dot_def)
  then show ?thesis
    by (simp add: complex_eq_iff)
qed

text \<open>
  C5. In analytic mode, with \<open>e\<close> the eigenvalue vector of the observable and \<open>p\<close> the
  probability vector over its translated wires (of the same length), \<open>expval\<close> is the
  real part of \<open>e \<cdot> p\<close>, and \<open>var\<close> is \<open>(e\<^sup>2) \<cdot> p - (e \<cdot> p)\<^sup>2\<close> for the real eigenvalues an
  observable has.
\<close>

theorem analytic_expval_var:
  assumes "analytic dev"
    and "probability be dev (Some (translate be (wires obs))) = Inr p"
    and "length (eigvals obs) = length p"
  shows "expval be dev obs = Inr (of_real (Re (dot (eigvals obs) p))) \<and>
         ((\<forall>x\<in>set (eigvals obs). Im x = 0) \<longrightarrow>
          var be dev obs =
            Inr (dot (map (\<lambda>x. x\<^sup>2) (eigvals obs)) p - (dot (eigvals obs) p)\<^sup>2))"
proof -
  have e: "matmul (eigvals obs) (map of_real p) = Inr (dot (eigvals obs) p)"
    using assms(3) by (rule matmul_dot)
  have e2: "matmul (map (\<lambda>x. x\<^sup>2) (eigvals obs)) (map of_real p) =
            Inr (dot (map (\<lambda>x. x\<^sup>2) (eigvals obs)) p)"
    using assms(3) by (simp add: matmul_dot)
  have ex: "expval be dev obs = Inr (of_real (Re (dot (eigvals obs) p)))"
    using assms(1,2) e by (simp add: expval_def)
  have va: "var be dev obs =
            Inr (dot (map (\<lambda>x. x\<^sup>2) (eigvals obs)) p -
                 of_real ((Re (dot (eigvals obs) p))\<^sup>2))"
    using assms(1,2) e e2 by (simp add: var_def)
  have "var be dev obs =
          Inr (dot (map (\<lambda>x. x\<^sup>2) (eigvals obs)) p - (dot (eigvals obs) p)\<^sup>2)"
    if "\<forall>x\<in>set (eigvals obs). Im x = 0"
  proof -
    have "of_real (Re (dot (eigvals obs) p)) = dot (eigvals obs) p"
      using that assms(3) by (rule dot_real)
    then have "of_real ((Re (dot (eigvals obs) p))\<^sup>2) = (dot (eigvals obs) p)\<^sup>2"
      by (metis of_real_power)
    with va show ?thesis by simp
  qed
  with ex show ?thesis by blast
qed

text \<open>The scenario of the specification: Pauli-Z on wire 0 of the two-wire device with
  probabilities \<open>[0.5, 0, 0.5, 0]\<close> has expectation value 0 and variance 1.\<close>

theorem analytic_expval_var_witness:
  "expval ex_backend ex_device (pauli_z (Some Expectation)) = Inr 0 \<and>
   var ex_backend ex_device (pauli_z (Some Variance)) = Inr 1"
proof -
  have a: "analytic ex_device" by (simp add: ex_device_def)
  have p: "probability ex_backend ex_device
             (Some (translate ex_backend (wires (pauli_z t)))) = Inr [1 / 2, 1 / 2]" for t
    by code_simp
  have l: "length (eigvals (pauli_z t)) = length [1 / 2, 1 / 2 :: real]" for t
    by (simp add: pauli_z_def)
  have r: "\<forall>x\<in>set (eigvals (pauli_z t)). Im x = 0" for t
    by (simp add: pauli_z_def)
  have d1: "dot (eigvals (pauli_z t)) [1 / 2, 1 / 2] = 0" for t
    by (simp add: dot_def pauli_z_def lessThan_Suc)
  have d2: "dot (map (\<lambda>x. x\<^sup>2) (eigvals (pauli_z t))) [1 / 2, 1 / 2] = 1" for t
    by (simp add: dot_def pauli_z_def lessThan_Suc)
  show ?thesis
    using analytic_expval_var [OF a p l, of "Some Expectation"]
      analytic_expval_var [OF a p l, of "Some Variance"] r d1 d2
    by simp
qed

subsection \<open>\<open>statistics\<close>\<close>

lemma statistics_loop_append:
  "statistics_loop be dev acc (xs @ ys) =
     (case statistics_loop be dev acc xs of
        Inl e \<Rightarrow> Inl e
      | Inr rs \<Rightarrow> statistics_loop be dev rs ys)"
  by (induction xs arbitrary: acc) (auto split: sum.splits option.splits)

lemma statistics_step_None:
  "return_type obs = None \<Longrightarrow> statistics_step be dev obs = Inr None"
  by (simp add: statistics_step_def)

lemma statistics_step_Unrecognized:
  "return_type obs = Some (Unrecognized t) \<Longrightarrow>
   statistics_step be dev obs =
     Inl (QuantumFunctionError
            (''Unsupported return type specified for observable '' @ name obs))"
  by (simp add: statistics_step_def)

text \<open>
  C10. \<open>statistics\<close> skips an observable whose return type is \<open>None\<close>: wherever it stands
  in the list, the outcome is the one without it, so it raises nothing and appends
  nothing, and the list returned is shorter than the list of observables.
\<close>

theorem statistics_skips_None:
  assumes "return_type obs = None"
  shows "statistics be dev (xs @ obs # ys) = statistics be dev (xs @ ys)"
  using assms
  by (simp add: statistics_def statistics_loop_append statistics_step_None split: sum.splits)

theorem statistics_skips_None_witness:
  "statistics ex_backend ex_device
     ([pauli_z (Some Expectation)] @ pauli_z None # [pauli_z (Some Variance)]) =
   Inr [Scalar 0, Scalar 1]"
proof -
  have n: "return_type (pauli_z None) = None"
    by (simp add: pauli_z_def)
  have "statistics ex_backend ex_device
          ([pauli_z (Some Expectation)] @ [pauli_z (Some Variance)]) = Inr [Scalar 0, Scalar 1]"
    by code_simp
  then show ?thesis
    using statistics_skips_None [OF n, of ex_backend ex_device "[pauli_z (Some Expectation)]"
        "[pauli_z (Some Variance)]"]
    by simp
qed

text \<open>
  C6, as the code has it. When \<open>statistics\<close> reaches an observable whose return type
  is none of \<open>Expectation\<close>, \<open>Variance\<close>, \<open>Sample\<close>, \<open>Probability\<close> and is not \<open>None\<close>, it
  raises \<open>QuantumFunctionError\<close> with a message that ends in the observable's name, and
  \<open>execute\<close> ends with that same error: it calls \<open>statistics\<close> once and catches nothing.
  Here \<open>dev2\<close> is the device when \<open>statistics\<close> is called (the circuit hash stored, and the
  samples when they are generated), and the observables before the offending one raise
  nothing.
\<close>

theorem unsupported_return_type_raises:
  assumes "return_type obs = Some (Unrecognized t)"
    and "check_validity be (operations c) (observables c) = None"
    and "apply_operations be (operations c) (diagonalizing_gates c) = None"
    and "observables c = xs @ obs # ys"
    and "dev1 = dev\<lparr>circuit_hash := Some (hash c)\<rparr>"
    and "if \<not> analytic dev \<or> is_sampled c
         then generate_samples be dev1 = Inr smp \<and> dev2 = dev1\<lparr>samples := Some smp\<rparr>
         else dev2 = dev1"
    and "statistics be dev2 xs = Inr rs"
  shows "statistics be dev2 (xs @ obs # ys) =
           Inl (QuantumFunctionError
                  (''Unsupported return type specified for observable '' @ name obs)) \<and>
         execute be dev c =
           (Inl (QuantumFunctionError
                   (''Unsupported return type specified for observable '' @ name obs)), dev2)"
proof -
  have s: "statistics be dev2 (xs @ obs # ys) =
           Inl (QuantumFunctionError
                  (''Unsupported return type specified for observable '' @ name obs))"
    using assms(1,7)
    by (simp add: statistics_def statistics_loop_append statistics_step_Unrecognized)
  show ?thesis
  proof (cases "\<not> analytic dev \<or> is_sampled c")
    case True
    with assms(6) have g: "generate_samples be dev1 = Inr smp" "dev2 = dev1\<lparr>samples := Some smp\<rparr>"
      by simp_all
    show ?thesis
      using s True g assms(2,3,4,5) by (auto simp add: execute_def)
  next
    case False
    with assms(6) have g: "dev2 = dev1"
      by simp
    show ?thesis
      using s False g assms(2,3,4,5) by (auto simp add: execute_def)
  qed
qed

theorem unsupported_return_type_raises_witness:
  "execute ex_backend ex_device
     (ex_circuit [pauli_z (Some Expectation), pauli_z (Some (Unrecognized ''State''))] False) =
   (Inl (QuantumFunctionError ''Unsupported return type specified for observable PauliZ''),
    ex_device\<lparr>circuit_hash := Some 7\<rparr>)"
proof -
  let ?c = "ex_circuit [pauli_z (Some Expectation), pauli_z (Some (Unrecognized ''State''))] False"
  let ?obs = "pauli_z (Some (Unrecognized ''State''))"
  let ?dev1 = "ex_device\<lparr>circuit_hash := Some (hash ?c)\<rparr>"
  have 1: "return_type ?obs = Some (Unrecognized ''State'')"
    by (simp add: pauli_z_def)
  have 2: "check_validity ex_backend (operations ?c) (observables ?c) = None"
    by (simp add: ex_backend_def)
  have 3: "apply_operations ex_backend (operations ?c) (diagonalizing_gates ?c) = None"
    by (simp add: ex_backend_def)
  have 4: "observables ?c = [pauli_z (Some Expectation)] @ ?obs # []"
    by (simp add: ex_circuit_def)
  have 5: "?dev1 = ex_device\<lparr>circuit_hash := Some (hash ?c)\<rparr>"
    by simp
  have 6: "if \<not> analytic ex_device \<or> is_sampled ?c
           then generate_samples ex_backend ?dev1 = Inr \<lparr>ncols = 0, rows = []\<rparr> \<and>
                ?dev1 = ?dev1\<lparr>samples := Some \<lparr>ncols = 0, rows = []\<rparr>\<rparr>
           else ?dev1 = ?dev1"
    by (simp add: ex_device_def ex_circuit_def)
  have 7: "statistics ex_backend ?dev1 [pauli_z (Some Expectation)] = Inr [Scalar 0]"
    by code_simp
  have n: "name ?obs = ''PauliZ''" "hash ?c = 7"
    by (simp_all add: pauli_z_def ex_circuit_def)
  show ?thesis
    using unsupported_return_type_raises [OF 1 2 3 4 5 6 7] n by simp
qed

text \<open>The return type \<open>None\<close> is none of the four tags, and no error is raised for it.\<close>

theorem unsupported_return_type_counterexample:
  "return_type (pauli_z None) \<notin>
     {Some Expectation, Some Variance, Some Sample, Some Probability} \<and>
   statistics ex_backend ex_device [pauli_z (Some Expectation), pauli_z None] =
     Inr [Scalar 0] \<and>
   fst (execute ex_backend ex_device
          (ex_circuit [pauli_z (Some Expectation), pauli_z None] False)) =
     Inr (NumericArray [Scalar 0])"
  by code_simp

subsection \<open>\<open>estimate_probability\<close>\<close>

lemma ravel_one_columns:
  assumes "\<forall>w\<in>set ws. r ! w = 0 \<or> r ! w = 1"
  shows "ravel_one acc (map (\<lambda>c. r ! c) ws) (replicate (length ws) 2) =
           Inr (foldl (\<lambda>acc w. 2 * acc + nat (r ! w)) acc ws)"
  using assms by (induction ws arbitrary: acc) (auto simp: mult.commute)

lemma foldl_bits_bound:
  assumes "\<forall>w\<in>set ws. r ! w = 0 \<or> r ! w = (1::int)"
  shows "acc < 2 ^ m \<Longrightarrow> foldl (\<lambda>acc w. 2 * acc + nat (r ! w)) acc ws < 2 ^ (m + length ws)"
  using assms
proof (induction ws arbitrary: acc m)
  case Nil
  then show ?case by simp
next
  case (Cons w ws)
  have "2 * acc + nat (r ! w) < 2 ^ Suc m"
    using Cons.prems by auto
  from Cons.IH [OF this] Cons.prems(2) show ?case
    by simp
qed

lemma sequence_Inr: "sequence (map (\<lambda>x. Inr (f x)) xs) = Inr (map f xs)"
  by (induction xs) simp_all

lemma length_assign: "length (assign a idx vals) = length a"
  by (induction a idx vals rule: assign.induct) simp_all

lemma assign_nth:
  assumes "distinct us" and "\<forall>u\<in>set us. u < length a" and "j < length a"
  shows "assign a us (map f us) ! j = (if j \<in> set us then f j else a ! j)"
  using assms
proof (induction us arbitrary: a)
  case Nil
  then show ?case by simp
next
  case (Cons u us)
  then show ?case
    by (auto simp: nth_list_update)
qed

lemma count_list_map:
  "count_list (map f xs) j = length (filter (\<lambda>x. f x = j) xs)"
  by (induction xs) simp_all

lemma count_list_0: "j \<notin> set xs \<Longrightarrow> count_list xs j = 0"
  by (induction xs) auto

text \<open>
  C4. With a stored sample array of shape \<open>(shots, num_wires)\<close> and entries 0 and 1, and a
  non-empty sequence \<open>ws\<close> of wires of the device, \<open>estimate_probability\<close> returns the
  vector of length \<open>2 ^ |ws|\<close> whose entry \<open>j\<close> is the number of rows whose \<open>ws\<close>-columns
  read \<open>j\<close>, divided by the shot count; it is 0 where no row reads \<open>j\<close>.
\<close>

theorem estimate_probability_counts:
  assumes "samples dev = Some smp"
    and "ncols smp = num_wires dev"
    and "length (rows smp) = shots dev"
    and "\<forall>r\<in>set (rows smp). length r = num_wires dev \<and> set r \<subseteq> {0, 1}"
    and "ws \<noteq> []"
    and "set ws \<subseteq> {0..<num_wires dev}"
  shows "estimate_probability dev (Some ws) =
           Inr (map (\<lambda>j. real (length (filter (\<lambda>r. column_index ws r = j) (rows smp))) /
                         real (shots dev))
                    [0..<2 ^ length ws])"
proof -
  let ?k = "length ws"
  let ?indices = "map (column_index ws) (rows smp)"
  let ?us = "sort (remdups ?indices)"
  let ?f = "\<lambda>c. real c / real (shots dev)"
  have bits: "\<forall>w\<in>set ws. r ! w = 0 \<or> r ! w = 1" if "r \<in> set (rows smp)" for r
  proof
    fix w assume "w \<in> set ws"
    with assms(6) that assms(4) have "w < length r" by auto
    then have "r ! w \<in> set r" by simp
    with assms(4) that show "r ! w = 0 \<or> r ! w = 1" by auto
  qed
  have sel: "select_columns smp ws =
               Inr \<lparr>ncols = ?k, rows = map (\<lambda>r. map (\<lambda>c. r ! c) ws) (rows smp)\<rparr>"
    using assms(2,6) by (auto simp: select_columns_def list_all_iff)
  have m: "map (\<lambda>m. ravel_one 0 m (replicate ?k 2)) (map (\<lambda>r. map (\<lambda>c. r ! c) ws) (rows smp)) =
        map (\<lambda>r. Inr (column_index ws r)) (rows smp)"
    using bits by (simp add: ravel_one_columns column_index_def)
  have rav: "ravel_multi_index (map (\<lambda>r. map (\<lambda>c. r ! c) ws) (rows smp)) (replicate ?k 2) =
               Inr ?indices"
    by (simp only: ravel_multi_index_def m sequence_Inr)
  have bound: "\<forall>u\<in>set ?us. u < 2 ^ ?k"
  proof
    fix u assume "u \<in> set ?us"
    then obtain r where r: "r \<in> set (rows smp)" "u = column_index ws r" by auto
    have "foldl (\<lambda>acc w. 2 * acc + nat (r ! w)) 0 ws < 2 ^ (0 + ?k)"
      by (rule foldl_bits_bound [OF bits [OF r(1)]]) simp
    then show "u < 2 ^ ?k" by (simp add: r(2) column_index_def)
  qed
  have nz: "\<not> (?us \<noteq> [] \<and> shots dev = 0)"
    using assms(3) by auto
  have est: "estimate_probability dev (Some ws) =
               Inr (assign (replicate (2 ^ ?k) 0) ?us (map (\<lambda>u. ?f (count_list ?indices u)) ?us))"
    using assms(1,5) sel rav nz
    by (simp add: estimate_probability_def hstack_def unique_counts_def Let_def comp_def)
  have "assign (replicate (2 ^ ?k) 0) ?us (map (\<lambda>u. ?f (count_list ?indices u)) ?us) =
        map (\<lambda>j. real (length (filter (\<lambda>r. column_index ws r = j) (rows smp))) / real (shots dev))
            [0..<2 ^ ?k]"
  proof (rule nth_equalityI)
    show "length (assign (replicate (2 ^ ?k) 0) ?us (map (\<lambda>u. ?f (count_list ?indices u)) ?us)) =
          length (map (\<lambda>j. real (length (filter (\<lambda>r. column_index ws r = j) (rows smp))) /
                        real (shots dev)) [0..<2 ^ ?k])"
      by (simp add: length_assign)
  next
    fix j
    assume "j < length (assign (replicate (2 ^ ?k) 0) ?us (map (\<lambda>u. ?f (count_list ?indices u)) ?us))"
    then have j: "j < 2 ^ ?k" by (simp add: length_assign)
    have "assign (replicate (2 ^ ?k) (0::real)) ?us (map (\<lambda>u. ?f (count_list ?indices u)) ?us) ! j =
          (if j \<in> set ?us then ?f (count_list ?indices j) else replicate (2 ^ ?k) 0 ! j)"
      using bound j by (intro assign_nth) simp_all
    also have "\<dots> = ?f (count_list ?indices j)"
      using j by (auto simp: count_list_0)
    also have "\<dots> = real (length (filter (\<lambda>r. column_index ws r = j) (rows smp))) / real (shots dev)"
      by (simp add: count_list_map)
    finally show "assign (replicate (2 ^ ?k) 0) ?us (map (\<lambda>u. ?f (count_list ?indices u)) ?us) ! j =
        map (\<lambda>j. real (length (filter (\<lambda>r. column_index ws r = j) (rows smp))) / real (shots dev))
            [0..<2 ^ ?k] ! j"
      using j by simp
  qed
  with est show ?thesis by simp
qed

theorem estimate_probability_counts_witness:
  "estimate_probability ex_sampled_device (Some [1, 0]) = Inr [1 / 4, 0, 1 / 2, 1 / 4]"
proof -
  let ?smp = "\<lparr>ncols = 2, rows = [[0, 1], [1, 1], [0, 1], [0, 0]]\<rparr>"
  have 1: "samples ex_sampled_device = Some ?smp"
    by (simp add: ex_sampled_device_def)
  have 2: "ncols ?smp = num_wires ex_sampled_device"
    by (simp add: ex_sampled_device_def)
  have 3: "length (rows ?smp) = shots ex_sampled_device"
    by (simp add: ex_sampled_device_def)
  have 4: "\<forall>r\<in>set (rows ?smp). length r = num_wires ex_sampled_device \<and> set r \<subseteq> {0, 1}"
    by (simp add: ex_sampled_device_def)
  have 5: "[1, 0 :: nat] \<noteq> []"
    by simp
  have 6: "set [1, 0 :: nat] \<subseteq> {0..<num_wires ex_sampled_device}"
    by (simp add: ex_sampled_device_def)
  have v: "map (\<lambda>j. real (length (filter (\<lambda>r. column_index [1, 0] r = j) (rows ?smp))) /
                         real (shots ex_sampled_device))
                    [0..<2 ^ length [1, 0 :: nat]] = [1 / 4, 0, 1 / 2, 1 / 4]"
    by code_simp
  show ?thesis
    using estimate_probability_counts [OF 1 2 3 4 5 6] v by simp
qed

subsection \<open>\<open>generate_samples\<close>\<close>

lemma bits_binary_expansion:
  "rev (map (\<lambda>j. if bit (i :: int64) j then 1 else 0) [0..<n]) = binary_expansion n (unat i)"
proof (rule nth_equalityI)
  show "length (rev (map (\<lambda>j. if bit i j then 1 else (0::int)) [0..<n])) =
        length (binary_expansion n (unat i))"
    by (simp add: binary_expansion_def)
next
  fix w
  assume "w < length (rev (map (\<lambda>j. if bit i j then 1 else (0::int)) [0..<n]))"
  then have w: "w < n" by simp
  have "bit i (n - 1 - w) \<longleftrightarrow> bit (unat i) (n - 1 - w)"
    by (simp add: bit_unsigned_iff)
  also have "\<dots> \<longleftrightarrow> odd (unat i div 2 ^ (n - 1 - w))"
    by (rule bit_iff_odd)
  finally have "bit i (n - 1 - w) \<longleftrightarrow> odd (unat i div 2 ^ (n - 1 - w))" .
  then show "rev (map (\<lambda>j. if bit i j then 1 else (0::int)) [0..<n]) ! w =
             binary_expansion n (unat i) ! w"
    using w by (simp add: rev_nth binary_expansion_def odd_iff_mod_2_eq_one)
qed

lemma arange_nonneg:
  assumes "i \<in> set (arange (2 ^ n))" and "n \<le> 63"
  shows "0 \<le> sint i"
proof -
  from assms(1) obtain k where k: "k < 2 ^ n" "i = (word_of_nat k :: int64)"
    by (auto simp: arange_def)
  have "(2::nat) ^ n \<le> 2 ^ 63"
    using power_increasing [OF assms(2), of "2::nat"] by simp
  with k(1) have k63: "k < 2 ^ 63" by simp
  have "\<not> bit k 63"
    using k63 by (simp add: bit_iff_odd)
  then have "\<not> bit i 63"
    unfolding k(2) bit_of_nat_iff by simp
  then show ?thesis
    using bit_last_iff [of i] by simp
qed

text \<open>
  C8. \<open>generate_samples\<close> asks the random generator for \<open>shots\<close> draws from the basis
  states \<open>0, \<dots>, 2 ^ num_wires - 1\<close> with the analytic probabilities as weights (and
  numpy's default, with replacement). Given the draws, one per shot and each a basis
  state, it returns the array of shape \<open>(shots, num_wires)\<close> whose rows are the big-endian
  binary expansions of the draws. The basis states are \<open>int64\<close>, hence at most 63 wires.
\<close>

theorem generate_samples_rows:
  assumes "analytic_probability be None = Inr p"
    and "random_choice be (arange (2 ^ num_wires dev)) (shots dev) p = Inr draws"
    and "length draws = shots dev"
    and "set draws \<subseteq> set (arange (2 ^ num_wires dev))"
    and "num_wires dev \<le> 63"
  shows "generate_samples be dev =
           Inr \<lparr>ncols = num_wires dev,
                rows = map (\<lambda>i. binary_expansion (num_wires dev) (unat i)) draws\<rparr> \<and>
         length (map (\<lambda>i. binary_expansion (num_wires dev) (unat i)) draws) = shots dev \<and>
         list_all (\<lambda>r. length r = num_wires dev)
           (map (\<lambda>i. binary_expansion (num_wires dev) (unat i)) draws)"
proof -
  have nn: "\<forall>i\<in>set draws. 0 \<le> sint i"
    using assms(4,5) arange_nonneg by blast
  have "rows (states_to_binary draws (num_wires dev)) =
          map (\<lambda>i. binary_expansion (num_wires dev) (unat i)) draws"
    using nn by (simp add: states_to_binary_rows bits_binary_expansion)
  moreover have "ncols (states_to_binary draws (num_wires dev)) = num_wires dev"
    by (simp add: states_to_binary_def)
  ultimately have "states_to_binary draws (num_wires dev) =
      \<lparr>ncols = num_wires dev,
       rows = map (\<lambda>i. binary_expansion (num_wires dev) (unat i)) draws\<rparr>"
    by simp
  then have "generate_samples be dev =
           Inr \<lparr>ncols = num_wires dev,
                rows = map (\<lambda>i. binary_expansion (num_wires dev) (unat i)) draws\<rparr>"
    using assms(1,2) by (simp add: generate_samples_def sample_basis_states_def)
  then show ?thesis
    using assms(3) by (simp add: list_all_iff binary_expansion_def)
qed

theorem generate_samples_rows_witness:
  "generate_samples ex_backend ex_device = Inr \<lparr>ncols = 2, rows = [[1, 0], [0, 0]]\<rparr>"
proof -
  have 1: "analytic_probability ex_backend None = Inr [1 / 2, 0, 1 / 2, 0]"
    by (simp add: ex_backend_def marginal_prob_def)
  have 2: "random_choice ex_backend (arange (2 ^ num_wires ex_device)) (shots ex_device)
             [1 / 2, 0, 1 / 2, 0] = Inr [2, 0]"
    by (simp add: ex_backend_def)
  have 3: "length [2, 0 :: int64] = shots ex_device"
    by (simp add: ex_device_def)
  have 4: "set [2, 0 :: int64] \<subseteq> set (arange (2 ^ num_wires ex_device))"
    by code_simp
  have 5: "num_wires ex_device \<le> 63"
    by (simp add: ex_device_def)
  have b: "map (\<lambda>i. binary_expansion (num_wires ex_device) (unat i)) [2, 0 :: int64] =
           [[1, 0], [0, 0]]"
    by code_simp
  have n: "num_wires ex_device = 2"
    by (simp add: ex_device_def)
  show ?thesis
    using generate_samples_rows [OF 1 2 3 4 5] b n by simp
qed

subsection \<open>\<open>execute\<close>\<close>

text \<open>The samples of an observable are as many as the rows of the sample array, so the
  results of sampled observables all have one shape; expectation values and variances
  are scalars.\<close>

lemma sequence_length: "sequence xs = Inr ys \<Longrightarrow> length ys = length xs"
  by (induction xs arbitrary: ys) (auto split: sum.splits)

lemma ravel_multi_index_length:
  "ravel_multi_index ms dims = Inr idx \<Longrightarrow> length idx = length ms"
  by (auto simp: ravel_multi_index_def dest: sequence_length)

lemma take_indices_length: "take_indices xs idx = Inr ys \<Longrightarrow> length ys = length idx"
  by (auto simp: take_indices_def split: if_splits)

lemma select_columns_length:
  "select_columns m idx = Inr sel \<Longrightarrow> length (rows sel) = length (rows m)"
  by (auto simp: select_columns_def split: if_splits)

lemma sample_length:
  assumes "sample be dev obs = Inr s"
  shows "\<exists>smp. samples dev = Some smp \<and> length s = length (rows smp)"
proof (cases "name obs \<in> {''PauliX'', ''PauliY'', ''PauliZ'', ''Hadamard''}")
  case True
  with assms show ?thesis
    by (simp add: sample_def split: list.splits option.splits if_splits) auto
next
  case False
  with assms obtain ws smp sel indices where
    "samples dev = Some smp" "select_columns smp ws = Inr sel"
    "ravel_multi_index (rows sel) (replicate (length ws) 2) = Inr indices"
    "take_indices (eigvals obs) indices = Inr s"
    by (simp add: sample_def split: sum.splits option.splits)
  then show ?thesis
    by (simp add: take_indices_length ravel_multi_index_length select_columns_length)
qed

lemma homogeneous_same_shape:
  "\<forall>r\<in>set rs. stat_shape r = sh \<Longrightarrow> homogeneous rs"
  by (cases rs) (simp_all add: homogeneous_def list_all_iff)

lemma statistics_step_scalar:
  assumes "statistics_step be dev obs = Inr (Some r)"
    and "return_type obs = Some Expectation \<or> return_type obs = Some Variance"
  shows "stat_shape r = []"
proof -
  from assms(2) show ?thesis
  proof
    assume "return_type obs = Some Expectation"
    with assms(1) obtain v where "r = Scalar v"
      by (auto simp: statistics_step_def split: sum.splits)
    then show ?thesis by (simp add: stat_shape_def)
  next
    assume "return_type obs = Some Variance"
    with assms(1) obtain v where "r = Scalar v"
      by (auto simp: statistics_step_def split: sum.splits)
    then show ?thesis by (simp add: stat_shape_def)
  qed
qed

lemma statistics_loop_scalars:
  assumes "statistics_loop be dev acc xs = Inr rs"
    and "\<forall>a\<in>set acc. stat_shape a = []"
    and "\<forall>obs\<in>set xs. return_type obs \<in> {Some Expectation, Some Variance, None}"
  shows "\<forall>r\<in>set rs. stat_shape r = []"
  using assms
proof (induction xs arbitrary: acc)
  case Nil
  then show ?case by simp
next
  case (Cons x xs)
  from Cons.prems(3) have rest: "\<forall>obs\<in>set xs. return_type obs \<in> {Some Expectation, Some Variance, None}"
    by simp
  from Cons.prems(3) consider "return_type x = None"
    | "return_type x = Some Expectation \<or> return_type x = Some Variance"
    by auto
  then show ?case
  proof cases
    case 1
    then have "statistics_step be dev x = Inr None"
      by (rule statistics_step_None)
    with Cons.prems(1) have "statistics_loop be dev acc xs = Inr rs"
      by simp
    from Cons.IH [OF this Cons.prems(2) rest] show ?thesis .
  next
    case 2
    from Cons.prems(1) 2 obtain r where r: "statistics_step be dev x = Inr (Some r)"
      and l: "statistics_loop be dev (acc @ [r]) xs = Inr rs"
      by (cases "statistics_step be dev x")
        (auto simp: statistics_step_def split: sum.splits option.splits)
    have "\<forall>a\<in>set (acc @ [r]). stat_shape a = []"
      using Cons.prems(2) statistics_step_scalar [OF r 2] by simp
    from Cons.IH [OF l this rest] show ?thesis .
  qed
qed

lemma statistics_loop_samples:
  assumes "statistics_loop be dev acc xs = Inr rs"
    and "\<forall>a\<in>set acc. stat_shape a = [n]"
    and "\<forall>obs\<in>set xs. return_type obs = Some Sample"
    and "\<And>obs s. sample be dev obs = Inr s \<Longrightarrow> length s = n"
  shows "\<forall>r\<in>set rs. stat_shape r = [n]"
  using assms(1,2,3)
proof (induction xs arbitrary: acc)
  case Nil
  then show ?case by simp
next
  case (Cons x xs)
  from Cons.prems(3) have x: "return_type x = Some Sample" by simp
  from Cons.prems(1) x obtain s where s: "sample be dev x = Inr s"
    and l: "statistics_loop be dev (acc @ [Array s]) xs = Inr rs"
    by (auto simp: statistics_step_def split: sum.splits)
  have "\<forall>a\<in>set (acc @ [Array s]). stat_shape a = [n]"
    using Cons.prems(2) assms(4) [OF s] by (auto simp: stat_shape_def)
  from Cons.IH [OF l this] Cons.prems(3) show ?case by simp
qed

lemma statistics_samples_homogeneous:
  assumes "statistics be dev xs = Inr rs"
    and "\<forall>obs\<in>set xs. return_type obs = Some Sample"
  shows "homogeneous rs"
proof -
  let ?n = "case samples dev of None \<Rightarrow> 0 | Some smp \<Rightarrow> length (rows smp)"
  have len: "length s = ?n" if "sample be dev obs = Inr s" for obs s
    using sample_length [OF that] by auto
  have l: "statistics_loop be dev [] xs = Inr rs"
    using assms(1) by (simp add: statistics_def)
  have "\<forall>a\<in>set ([] :: stat list). stat_shape a = [?n]"
    by simp
  from statistics_loop_samples [OF l this assms(2) len]
  have "\<forall>r\<in>set rs. stat_shape r = [?n]" .
  then show ?thesis by (rule homogeneous_same_shape)
qed

lemma statistics_scalars_homogeneous:
  assumes "statistics be dev xs = Inr rs"
    and "\<forall>obs\<in>set xs. return_type obs \<in> {Some Expectation, Some Variance, None}"
  shows "homogeneous rs"
proof -
  have l: "statistics_loop be dev [] xs = Inr rs"
    using assms(1) by (simp add: statistics_def)
  have "\<forall>a\<in>set ([] :: stat list). stat_shape a = []"
    by simp
  from statistics_loop_scalars [OF l this assms(2)]
  have "\<forall>r\<in>set rs. stat_shape r = []" .
  then show ?thesis by (rule homogeneous_same_shape)
qed

lemma execute_packs_statistics:
  assumes "check_validity be (operations c) (observables c) = None"
    and "apply_operations be (operations c) (diagonalizing_gates c) = None"
    and "dev1 = dev\<lparr>circuit_hash := Some (hash c)\<rparr>"
    and "if \<not> analytic dev \<or> is_sampled c
         then generate_samples be dev1 = Inr smp \<and> dev2 = dev1\<lparr>samples := Some smp\<rparr>
         else dev2 = dev1"
    and "statistics be dev2 (observables c) = Inr rs"
  shows "execute be dev c =
           (if is_sampled c \<and> \<not> list_all (\<lambda>obs. return_type obs = Some Sample) (observables c)
            then asarray_object rs else asarray be rs, dev2)"
proof (cases "\<not> analytic dev \<or> is_sampled c")
  case True
  with assms(4) have g: "generate_samples be dev1 = Inr smp" "dev2 = dev1\<lparr>samples := Some smp\<rparr>"
    by simp_all
  show ?thesis
    using True g assms(1,2,3,5) by (auto simp add: execute_def)
next
  case False
  with assms(4) have g: "dev2 = dev1"
    by simp
  show ?thesis
    using False g assms(1,2,3,5) by (auto simp add: execute_def)
qed

text \<open>
  C7, as the code has it. When nothing is raised before, \<open>execute\<close> returns the array of
  the statistics of the circuit's observables (\<open>rs\<close>, computed on \<open>dev2\<close>, the device with
  the circuit hash stored and the samples when they are generated). With the flag
  \<open>is_sampled\<close> meaning that some observable has the return type \<open>Sample\<close>:
  \<^item> when some observable is sampled and some is not, the array is an object array,
    whatever the shapes of the results;
  \<^item> otherwise numpy chooses: a numeric array when the results all have the same shape,
    and, when they do not, an object array or a \<open>ValueError\<close> as the numpy at hand has it;
  \<^item> so the array is numeric when every observable has the return type \<open>Expectation\<close> or
    \<open>Variance\<close> (or \<open>None\<close>), and when every observable has the return type \<open>Sample\<close>.
\<close>

theorem execute_container:
  assumes "check_validity be (operations c) (observables c) = None"
    and "apply_operations be (operations c) (diagonalizing_gates c) = None"
    and "dev1 = dev\<lparr>circuit_hash := Some (hash c)\<rparr>"
    and "if \<not> analytic dev \<or> is_sampled c
         then generate_samples be dev1 = Inr smp \<and> dev2 = dev1\<lparr>samples := Some smp\<rparr>
         else dev2 = dev1"
    and "statistics be dev2 (observables c) = Inr rs"
    and "is_sampled c \<longleftrightarrow> (\<exists>obs\<in>set (observables c). return_type obs = Some Sample)"
  shows "execute be dev c =
           (if (\<exists>obs\<in>set (observables c). return_type obs = Some Sample) \<and>
               (\<exists>obs\<in>set (observables c). return_type obs \<noteq> Some Sample)
            then Inr (ObjectArray rs)
            else if homogeneous rs then Inr (NumericArray rs)
            else if ragged_raises be then Inl ValueError
            else Inr (ObjectArray rs),
            dev2) \<and>
         ((\<forall>obs\<in>set (observables c).
              return_type obs \<in> {Some Expectation, Some Variance, None}) \<or>
          (\<forall>obs\<in>set (observables c). return_type obs = Some Sample) \<longrightarrow>
          execute be dev c = (Inr (NumericArray rs), dev2))"
proof -
  have e: "execute be dev c =
           (if (\<exists>obs\<in>set (observables c). return_type obs = Some Sample) \<and>
               (\<exists>obs\<in>set (observables c). return_type obs \<noteq> Some Sample)
            then Inr (ObjectArray rs)
            else if homogeneous rs then Inr (NumericArray rs)
            else if ragged_raises be then Inl ValueError
            else Inr (ObjectArray rs),
            dev2)"
    using execute_packs_statistics [OF assms(1-5)] assms(6)
    by (auto simp: asarray_def asarray_object_def list_all_iff)
  have "execute be dev c = (Inr (NumericArray rs), dev2)"
    if "\<forall>obs\<in>set (observables c). return_type obs \<in> {Some Expectation, Some Variance, None}"
  proof -
    have "homogeneous rs"
      using assms(5) that by (rule statistics_scalars_homogeneous)
    moreover have "\<not> (\<exists>obs\<in>set (observables c). return_type obs = Some Sample)"
      using that by auto
    ultimately show ?thesis
      using e by simp
  qed
  moreover have "execute be dev c = (Inr (NumericArray rs), dev2)"
    if "\<forall>obs\<in>set (observables c). return_type obs = Some Sample"
  proof -
    have "homogeneous rs"
      using assms(5) that by (rule statistics_samples_homogeneous)
    moreover have "\<not> (\<exists>obs\<in>set (observables c). return_type obs \<noteq> Some Sample)"
      using that by auto
    ultimately show ?thesis
      using e by simp
  qed
  ultimately show ?thesis
    using e by blast
qed

theorem execute_container_witness:
  "execute ex_backend ex_device
     (ex_circuit [pauli_z (Some Sample), pauli_z (Some Expectation)] True) =
     (Inr (ObjectArray [Array [- 1, 1], Scalar 0]),
      ex_device\<lparr>circuit_hash := Some 7,
                 samples := Some \<lparr>ncols = 2, rows = [[1, 0], [0, 0]]\<rparr>\<rparr>) \<and>
   execute ex_backend ex_device
     (ex_circuit [pauli_z (Some Expectation), pauli_z (Some Variance)] False) =
     (Inr (NumericArray [Scalar 0, Scalar 1]), ex_device\<lparr>circuit_hash := Some 7\<rparr>)"
proof -
  let ?c1 = "ex_circuit [pauli_z (Some Sample), pauli_z (Some Expectation)] True"
  let ?c2 = "ex_circuit [pauli_z (Some Expectation), pauli_z (Some Variance)] False"
  let ?dev1 = "ex_device\<lparr>circuit_hash := Some 7\<rparr>"
  let ?smp = "\<lparr>ncols = 2, rows = [[1, 0], [0, 0]]\<rparr>"
  let ?dev2 = "?dev1\<lparr>samples := Some ?smp\<rparr>"
  have v: "check_validity ex_backend (operations c) (observables c) = None" for c
    by (simp add: ex_backend_def)
  have a: "apply_operations ex_backend (operations c) (diagonalizing_gates c) = None" for c
    by (simp add: ex_backend_def)
  have h1: "?dev1 = ex_device\<lparr>circuit_hash := Some (hash ?c1)\<rparr>"
    by (simp add: ex_circuit_def)
  have h2: "?dev1 = ex_device\<lparr>circuit_hash := Some (hash ?c2)\<rparr>"
    by (simp add: ex_circuit_def)
  have g: "generate_samples ex_backend ?dev1 = Inr ?smp"
    by code_simp
  have g1: "if \<not> analytic ex_device \<or> is_sampled ?c1
            then generate_samples ex_backend ?dev1 = Inr ?smp \<and>
                 ?dev2 = ?dev1\<lparr>samples := Some ?smp\<rparr>
            else ?dev2 = ?dev1"
    using g by (simp add: ex_circuit_def)
  have g2: "if \<not> analytic ex_device \<or> is_sampled ?c2
            then generate_samples ex_backend ?dev1 = Inr ?smp \<and>
                 ?dev1 = ?dev1\<lparr>samples := Some ?smp\<rparr>
            else ?dev1 = ?dev1"
    by (simp add: ex_circuit_def ex_device_def)
  have s1: "statistics ex_backend ?dev2 (observables ?c1) = Inr [Array [- 1, 1], Scalar 0]"
    by code_simp
  have s2: "statistics ex_backend ?dev1 (observables ?c2) = Inr [Scalar 0, Scalar 1]"
    by code_simp
  have f1: "is_sampled ?c1 \<longleftrightarrow> (\<exists>obs\<in>set (observables ?c1). return_type obs = Some Sample)"
    by (simp add: ex_circuit_def pauli_z_def)
  have f2: "is_sampled ?c2 \<longleftrightarrow> (\<exists>obs\<in>set (observables ?c2). return_type obs = Some Sample)"
    by (simp add: ex_circuit_def pauli_z_def)
  have t1: "(\<exists>obs\<in>set (observables ?c1). return_type obs = Some Sample) \<and>
            (\<exists>obs\<in>set (observables ?c1). return_type obs \<noteq> Some Sample)"
    by (simp add: ex_circuit_def pauli_z_def)
  have t2: "\<forall>obs\<in>set (observables ?c2).
              return_type obs \<in> {Some Expectation, Some Variance, None}"
    by (simp add: ex_circuit_def pauli_z_def)
  have r1: "execute ex_backend ex_device ?c1 =
              (Inr (ObjectArray [Array [- 1, 1], Scalar 0]), ?dev2)"
    using execute_container [OF v a h1 g1 s1 f1, THEN conjunct1] t1 by simp
  have r2: "execute ex_backend ex_device ?c2 =
              (Inr (NumericArray [Scalar 0, Scalar 1]), ?dev1)"
    using execute_container [OF v a h2 g2 s2 f2, THEN conjunct2] t2 by blast
  from r1 r2 show ?thesis
    by (rule conjI)
qed

text \<open>
  Samples and probabilities of the same shape \<open>(2,)\<close> still go into an object array. With
  no sampled observable, an expectation value with a probability vector gives an object
  array, or a \<open>ValueError\<close> on numpy from 1.24 on, and not an array of numbers; so do the
  probabilities of one wire with those of two, which have one return type.
\<close>

theorem execute_container_counterexample:
  "fst (execute ex_backend ex_device (ex_circuit [pauli_z (Some Sample), probs [0]] True)) =
     Inr (ObjectArray [Array [- 1, 1], Array [1 / 2, 1 / 2]]) \<and>
   map stat_shape [Array [- 1, 1], Array [1 / 2, 1 / 2]] = [[2], [2]] \<and>
   fst (execute ex_backend ex_device
          (ex_circuit [pauli_z (Some Expectation), probs [0]] False)) =
     Inr (ObjectArray [Scalar 0, Array [1 / 2, 1 / 2]]) \<and>
   fst (execute ex_backend_1_24 ex_device
          (ex_circuit [pauli_z (Some Expectation), probs [0]] False)) =
     Inl ValueError \<and>
   fst (execute ex_backend ex_device (ex_circuit [probs [0], probs [0, 1]] False)) =
     Inr (ObjectArray [Array [1 / 2, 1 / 2], Array [1 / 2, 0, 1 / 2, 0]])"
  by code_simp

subsection \<open>\<open>marginal_prob\<close> on wires out of order\<close>

text \<open>
  C1. On three wires and \<open>wires = [1, 2, 0]\<close>, \<open>marginal_prob\<close> does not return the
  marginal in the caller's order: the index \<open>001\<close> read on the wires \<open>(1, 2, 0)\<close> is the
  basis state \<open>100\<close>, of probability \<open>3/4\<close>, but the entry returned there is that of
  \<open>010\<close>, which is \<open>1/4\<close>. The columns of the basis states are permuted by the ranks of
  the wires, \<open>argsort(argsort(wires))\<close>, where the inverse permutation is needed. On
  \<open>wires = [2, 0]\<close>, where the two permutations are the same, the same vector is
  marginalised in the caller's order.
\<close>

theorem marginal_prob_cyclic_order:
  "marginal_prob ex_device3 [0, 0, 1 / 4, 0, 3 / 4, 0, 0, 0] (Some [1, 2, 0]) =
     Inr [0, 1 / 4, 3 / 4, 0, 0, 0, 0, 0] \<and>
   marginal_over 3 [0, 0, 1 / 4, 0, 3 / 4, 0, 0, 0] [1, 2, 0] =
     [0, 3 / 4, 0, 0, 1 / 4, 0, 0, 0] \<and>
   marginal_prob ex_device3 [0, 0, 1 / 4, 0, 3 / 4, 0, 0, 0] (Some [2, 0]) =
     Inr (marginal_over 3 [0, 0, 1 / 4, 0, 3 / 4, 0, 0, 0] [2, 0])"
  by code_simp

end
